theory Spec2Isabelle
  imports Complex_Main
begin

section \<open>Lab 1: gravitational potential, gravitational force and rocket burn\<close>

text \<open>
  An embedding of \<^verbatim>\<open>Lab1Code.ipynb\<close>. The notebook computes with IEEE doubles.

  \<^item> A finite double is a real number; \<open>PInf\<close>, \<open>NInf\<close> and \<open>NaN\<close> are the two infinities
    and not-a-number. The two zeros are one value.
  \<^item> An operation whose exact result lies at or beyond the overflow threshold of doubles
    yields an infinity, as numpy's and Python's \<^verbatim>\<open>+\<close>, \<^verbatim>\<open>-\<close>, \<^verbatim>\<open>*\<close> do (a warning at
    most, no exception). Division by zero, the square root of a negative number and the
    logarithm of a non-positive number yield an infinity or \<open>NaN\<close>.
  \<^item> The value of an operation inside the finite range is its exact result: rounding to
    53 bits is left out of the value arithmetic. It is kept at the one place where the
    control flow of the program depends on it, the mass \<^verbatim>\<open>m_t\<close> that decides the branch
    of \<^verbatim>\<open>delta_v\<close> (\<open>delta_v_double\<close> below).
  \<^item> The query coordinates are numpy values, as at every call of the notebook (array
    elements), so \<^verbatim>\<open>**2\<close> and \<^verbatim>\<open>/\<close> are numpy's; the masses, the source position and
    the rocket parameters are Python floats.
\<close>

subsection \<open>Values and errors\<close>

datatype float64 = Fin real | PInf | NInf | NaN

datatype py_error = IndexError | ZeroDivisionError

definition overflow_threshold :: real where
  \<comment> \<open>half an ulp above the largest double: from here on a result rounds to infinity\<close>
  "overflow_threshold = 2 ^ 1024 - 2 ^ 970"

definition in_range :: "real \<Rightarrow> bool" where
  "in_range v \<longleftrightarrow> \<bar>v\<bar> < overflow_threshold"

definition fl :: "real \<Rightarrow> float64" where
  "fl v = (if overflow_threshold \<le> v then PInf
           else if v \<le> - overflow_threshold then NInf
           else Fin v)"

fun finite_float :: "float64 \<Rightarrow> bool" where
  "finite_float (Fin a) = True"
| "finite_float PInf = False"
| "finite_float NInf = False"
| "finite_float NaN = False"

fun np_negative :: "float64 \<Rightarrow> float64" where
  "np_negative (Fin a) = Fin (- a)"
| "np_negative PInf = NInf"
| "np_negative NInf = PInf"
| "np_negative NaN = NaN"

fun np_add :: "float64 \<Rightarrow> float64 \<Rightarrow> float64" where
  "np_add (Fin a) (Fin b) = fl (a + b)"
| "np_add (Fin a) PInf = PInf"
| "np_add (Fin a) NInf = NInf"
| "np_add PInf (Fin b) = PInf"
| "np_add NInf (Fin b) = NInf"
| "np_add PInf PInf = PInf"
| "np_add NInf NInf = NInf"
| "np_add PInf NInf = NaN"
| "np_add NInf PInf = NaN"
| "np_add NaN b = NaN"
| "np_add a NaN = NaN"

definition np_subtract :: "float64 \<Rightarrow> float64 \<Rightarrow> float64" where
  "np_subtract a b = np_add a (np_negative b)"

fun np_multiply :: "float64 \<Rightarrow> float64 \<Rightarrow> float64" where
  "np_multiply (Fin a) (Fin b) = fl (a * b)"
| "np_multiply (Fin a) PInf = (if a = 0 then NaN else if 0 < a then PInf else NInf)"
| "np_multiply (Fin a) NInf = (if a = 0 then NaN else if 0 < a then NInf else PInf)"
| "np_multiply PInf (Fin b) = (if b = 0 then NaN else if 0 < b then PInf else NInf)"
| "np_multiply NInf (Fin b) = (if b = 0 then NaN else if 0 < b then NInf else PInf)"
| "np_multiply PInf PInf = PInf"
| "np_multiply NInf NInf = PInf"
| "np_multiply PInf NInf = NInf"
| "np_multiply NInf PInf = NInf"
| "np_multiply NaN b = NaN"
| "np_multiply a NaN = NaN"

definition np_square :: "float64 \<Rightarrow> float64" where
  \<comment> \<open>\<^verbatim>\<open>v**2\<close> on a numpy value\<close>
  "np_square a = np_multiply a a"

fun np_divide :: "float64 \<Rightarrow> float64 \<Rightarrow> float64" where
  "np_divide (Fin a) (Fin b) =
     (if b = 0 then (if a = 0 then NaN else if 0 < a then PInf else NInf)
      else fl (a / b))"
| "np_divide (Fin a) PInf = Fin 0"
| "np_divide (Fin a) NInf = Fin 0"
| "np_divide PInf (Fin b) = (if 0 \<le> b then PInf else NInf)"
| "np_divide NInf (Fin b) = (if 0 \<le> b then NInf else PInf)"
| "np_divide PInf PInf = NaN"
| "np_divide PInf NInf = NaN"
| "np_divide NInf PInf = NaN"
| "np_divide NInf NInf = NaN"
| "np_divide NaN b = NaN"
| "np_divide a NaN = NaN"

fun np_sqrt :: "float64 \<Rightarrow> float64" where
  "np_sqrt (Fin a) = (if a < 0 then NaN else Fin (sqrt a))"
| "np_sqrt PInf = PInf"
| "np_sqrt NInf = NaN"
| "np_sqrt NaN = NaN"

fun np_log :: "float64 \<Rightarrow> float64" where
  "np_log (Fin a) = (if a < 0 then NaN else if a = 0 then NInf else fl (ln a))"
| "np_log PInf = PInf"
| "np_log NInf = NaN"
| "np_log NaN = NaN"

fun np_maximum :: "float64 \<Rightarrow> float64 \<Rightarrow> float64" where
  "np_maximum (Fin a) (Fin b) = Fin (max a b)"
| "np_maximum NaN b = NaN"
| "np_maximum a NaN = NaN"
| "np_maximum PInf b = PInf"
| "np_maximum a PInf = PInf"
| "np_maximum NInf b = b"
| "np_maximum a NInf = a"

fun np_greater :: "float64 \<Rightarrow> float64 \<Rightarrow> bool" where
  "np_greater (Fin a) (Fin b) = (b < a)"
| "np_greater PInf (Fin b) = True"
| "np_greater PInf NInf = True"
| "np_greater (Fin a) NInf = True"
| "np_greater a b = False"

fun bind_err :: "py_error + 'a \<Rightarrow> ('a \<Rightarrow> py_error + 'b) \<Rightarrow> py_error + 'b" where
  "bind_err (Inl e) f = Inl e"
| "bind_err (Inr a) f = f a"

definition py_truediv :: "real \<Rightarrow> real \<Rightarrow> py_error + real" where
  \<comment> \<open>\<^verbatim>\<open>/\<close> on two Python floats raises on a zero divisor.\<close>
  "py_truediv a b = (if b = 0 then Inl ZeroDivisionError else Inr (a / b))"

subsection \<open>Rounding to double precision\<close>





subsection \<open>Constants\<close>

text \<open>
  The rocket constants \<^verbatim>\<open>g\<close>, \<^verbatim>\<open>ve\<close>, \<^verbatim>\<open>mdot\<close>, \<^verbatim>\<open>m0\<close>, \<^verbatim>\<open>mf\<close> are also the parameter names
  of \<^verbatim>\<open>delta_v\<close>; the global constants carry the suffix \<open>_const\<close> here, and the
  one-letter globals \<^verbatim>\<open>x\<close>, \<^verbatim>\<open>y\<close>, \<^verbatim>\<open>X\<close>, \<^verbatim>\<open>Y\<close>, \<^verbatim>\<open>T\<close>, \<^verbatim>\<open>h\<close> are \<open>x_lin\<close>, \<open>y_lin\<close>,
  \<open>X_grid\<close>, \<open>Y_grid\<close>, \<open>T_burn\<close>, \<open>h_burnout\<close>.
\<close>

definition G :: real where "G = 667 / 10 ^ 13"
definition g_const :: real where "g_const = 981 / 100"
definition M_earth :: real where "M_earth = 59 * 10 ^ 23"
definition M_moon :: real where "M_moon = 73 * 10 ^ 21"
definition R_earth :: real where "R_earth = 6378 * 10 ^ 3"
definition R_moon :: real where "R_moon = 1737 * 10 ^ 3"
definition d_earth_moon :: real where "d_earth_moon = 38 * 10 ^ 7"
definition m_cmd :: real where "m_cmd = 5500"
definition ve_const :: real where "ve_const = 2400"
definition mdot_const :: real where "mdot_const = 13000"
definition m0_const :: real where "m0_const = 2800000"
definition mf_const :: real where "mf_const = 750000"

subsection \<open>Arrays\<close>

text \<open>
  A two-dimensional numpy array is a list of rows. Reading or writing \<^verbatim>\<open>A[i, j]\<close> outside
  the array raises \<^verbatim>\<open>IndexError\<close>. \<open>linspace\<close> and \<open>meshgrid\<close> follow numpy's
  documentation: \<open>num\<close> evenly spaced samples from \<open>start\<close> to \<open>stop\<close> inclusive, and the
  coordinate matrices with \<open>X[i, j] = x[j]\<close> and \<open>Y[i, j] = y[i]\<close>.
\<close>

type_synonym field = "float64 list list"

definition getitem2 :: "'a list list \<Rightarrow> nat \<Rightarrow> nat \<Rightarrow> py_error + 'a" where
  "getitem2 A i j =
     (if i < length A \<and> j < length (A ! i) then Inr (A ! i ! j) else Inl IndexError)"

definition setitem2 :: "'a list list \<Rightarrow> nat \<Rightarrow> nat \<Rightarrow> 'a \<Rightarrow> py_error + 'a list list" where
  "setitem2 A i j v =
     (if i < length A \<and> j < length (A ! i) then Inr (A[i := (A ! i)[j := v]])
      else Inl IndexError)"

definition zeros_like :: "real list list \<Rightarrow> field" where
  "zeros_like A = map (map (\<lambda>_. Fin 0)) A"

definition linspace :: "real \<Rightarrow> real \<Rightarrow> nat \<Rightarrow> real list" where
  "linspace start stop num =
     map (\<lambda>i. start + real i * ((stop - start) / real (num - 1))) [0..<num]"

definition meshgrid :: "real list \<Rightarrow> real list \<Rightarrow> real list list \<times> real list list" where
  "meshgrid xs ys = (map (\<lambda>_. xs) ys, map (\<lambda>v. map (\<lambda>_. v) xs) ys)"

definition grid_pts :: nat where "grid_pts = 500"

definition x_lin :: "real list" where
  "x_lin = linspace (- 1.5 * d_earth_moon) (1.5 * d_earth_moon) grid_pts"

definition y_lin :: "real list" where
  "y_lin = linspace (- 1.5 * d_earth_moon) (1.5 * d_earth_moon) grid_pts"

definition X_grid :: "real list list" where
  "X_grid = fst (meshgrid x_lin y_lin)"

definition Y_grid :: "real list list" where
  "Y_grid = snd (meshgrid x_lin y_lin)"

subsection \<open>Part 1: gravitational potential\<close>

definition gravitational_potential :: "real \<Rightarrow> real \<Rightarrow> real \<Rightarrow> real \<Rightarrow> real \<Rightarrow> float64" where
  "gravitational_potential M xM yM x y =
     (let r = np_sqrt (np_add (np_square (np_subtract (Fin x) (Fin xM)))
                              (np_square (np_subtract (Fin y) (Fin yM))));
          r = np_maximum r (Fin 1000)
      in np_divide (np_multiply (np_negative (Fin G)) (Fin M)) r)"

text \<open>The same function applied to the coordinate matrices works element by element.\<close>

definition gravitational_potential_arr ::
  "real \<Rightarrow> real \<Rightarrow> real \<Rightarrow> real list list \<Rightarrow> real list list \<Rightarrow> field" where
  "gravitational_potential_arr M xM yM XX YY =
     map2 (\<lambda>xs ys. map2 (gravitational_potential M xM yM) xs ys) XX YY"

subsection \<open>Part 2: Earth-Moon system potential\<close>

definition x_moon :: real where "x_moon = d_earth_moon / sqrt 2"
definition y_moon :: real where "y_moon = d_earth_moon / sqrt 2"

definition phi_total :: field where
  "phi_total =
     map2 (map2 np_add)
       (gravitational_potential_arr M_earth 0 0 X_grid Y_grid)
       (gravitational_potential_arr M_moon x_moon y_moon X_grid Y_grid)"

subsection \<open>Part 3: gravitational force\<close>

definition gravitational_force ::
  "real \<Rightarrow> real \<Rightarrow> real \<Rightarrow> real \<Rightarrow> real \<Rightarrow> real \<Rightarrow> float64 \<times> float64" where
  "gravitational_force M1 m2 x1 y1 x2 y2 =
     (let dx = np_subtract (Fin x2) (Fin x1);
          dy = np_subtract (Fin y2) (Fin y1);
          r2 = np_add (np_square dx) (np_square dy);
          r2 = np_maximum r2 (Fin 1000000);
          r = np_sqrt r2;
          F = np_divide (np_multiply (np_multiply (np_negative (Fin G)) (Fin M1)) (Fin m2)) r2
      in (np_divide (np_multiply F dx) r, np_divide (np_multiply F dy) r))"

text \<open>
  The vector field of forces. The state of the double loop is the pair of arrays
  \<^verbatim>\<open>(Fx_total, Fy_total)\<close>; \<open>cell_body\<close> is the body of the inner loop at \<open>(i, j)\<close>.
\<close>

definition cell_body :: "nat \<Rightarrow> nat \<Rightarrow> field \<times> field \<Rightarrow> py_error + field \<times> field" where
  "cell_body i j s =
     (case s of (Fx_total, Fy_total) \<Rightarrow>
        bind_err (getitem2 X_grid i j) (\<lambda>x_pos.
        bind_err (getitem2 Y_grid i j) (\<lambda>y_pos.
          case gravitational_force M_earth m_cmd 0 0 x_pos y_pos of (Fx1, Fy1) \<Rightarrow>
          case gravitational_force M_moon m_cmd x_moon y_moon x_pos y_pos of (Fx2, Fy2) \<Rightarrow>
            bind_err (setitem2 Fx_total i j (np_add Fx1 Fx2)) (\<lambda>Fx_total'.
            bind_err (setitem2 Fy_total i j (np_add Fy1 Fy2)) (\<lambda>Fy_total'.
              Inr (Fx_total', Fy_total'))))))"

fun inner_loop :: "nat \<Rightarrow> nat list \<Rightarrow> field \<times> field \<Rightarrow> py_error + field \<times> field" where
  "inner_loop i [] s = Inr s"
| "inner_loop i (j # js) s = bind_err (cell_body i j s) (inner_loop i js)"

fun outer_loop :: "nat list \<Rightarrow> field \<times> field \<Rightarrow> py_error + field \<times> field" where
  "outer_loop [] s = Inr s"
| "outer_loop (i # is) s = bind_err (inner_loop i [0..<grid_pts] s) (outer_loop is)"

definition force_field_total :: "py_error + field \<times> field" where
  "force_field_total = outer_loop [0..<grid_pts] (zeros_like X_grid, zeros_like Y_grid)"



text \<open>
  For the comparison with the loop: the same cell body run over an arbitrary list of
  cells, and the field written as a pointwise map over the grid, each cell from its own
  coordinate alone.
\<close>

fun run_cells :: "(nat \<times> nat) list \<Rightarrow> field \<times> field \<Rightarrow> py_error + field \<times> field" where
  "run_cells [] s = Inr s"
| "run_cells ((i, j) # cs) s = bind_err (cell_body i j s) (run_cells cs)"

definition total_force_at :: "real \<Rightarrow> real \<Rightarrow> float64 \<times> float64" where
  "total_force_at x_pos y_pos =
     (np_add (fst (gravitational_force M_earth m_cmd 0 0 x_pos y_pos))
             (fst (gravitational_force M_moon m_cmd x_moon y_moon x_pos y_pos)),
      np_add (snd (gravitational_force M_earth m_cmd 0 0 x_pos y_pos))
             (snd (gravitational_force M_moon m_cmd x_moon y_moon x_pos y_pos)))"

definition vectorized_force_field :: "field \<times> field" where
  "vectorized_force_field =
     (map2 (map2 (\<lambda>x_pos y_pos. fst (total_force_at x_pos y_pos))) X_grid Y_grid,
      map2 (map2 (\<lambda>x_pos y_pos. snd (total_force_at x_pos y_pos))) X_grid Y_grid)"

text \<open>The shape of the arrays of the force field: \<open>grid_pts\<close> rows of \<open>grid_pts\<close> entries.\<close>

definition well_shaped :: "field \<Rightarrow> bool" where
  "well_shaped F \<longleftrightarrow> length F = grid_pts \<and> list_all (\<lambda>row. length row = grid_pts) F"

subsection \<open>Part 4: rocket altitude\<close>

text \<open>
  \<^verbatim>\<open>delta_v\<close>, with the rounding of the two Python operations that produce the mass as a
  parameter: \<open>delta_v\<close> takes their exact results, \<open>delta_v_double\<close> rounds each to a
  double, as the interpreter does. The arithmetic of the returned value is exact in both.
\<close>

definition m_t_rnd :: "(float64 \<Rightarrow> float64) \<Rightarrow> real \<Rightarrow> real \<Rightarrow> real \<Rightarrow> real \<Rightarrow> float64" where
  "m_t_rnd rnd t m0 mf mdot =
     np_maximum (rnd (np_subtract (Fin m0) (rnd (np_multiply (Fin mdot) (Fin t))))) (Fin mf)"

definition delta_v_rnd ::
  "(float64 \<Rightarrow> float64) \<Rightarrow> real \<Rightarrow> real \<Rightarrow> real \<Rightarrow> real \<Rightarrow> real \<Rightarrow> real \<Rightarrow> float64" where
  "delta_v_rnd rnd t m0 mf mdot ve g =
     (let m_t = m_t_rnd rnd t m0 mf mdot
      in if np_greater m_t (Fin mf)
         then np_subtract (np_multiply (Fin ve) (np_log (np_divide (Fin m0) m_t)))
                          (np_multiply (Fin g) (Fin t))
         else Fin 0)"

definition delta_v :: "real \<Rightarrow> real \<Rightarrow> real \<Rightarrow> real \<Rightarrow> real \<Rightarrow> real \<Rightarrow> float64" where
  "delta_v = delta_v_rnd (\<lambda>v. v)"


definition T_burn :: "py_error + real" where
  "T_burn = py_truediv (m0_const - mf_const) mdot_const"

definition altitude_upto :: "real \<Rightarrow> real" where
  \<comment> \<open>Modelled from the spec: the distance covered up to time \<open>t\<close>, the antiderivative of
      the burning velocity \<open>ve * ln (m0 / (m0 - mdot * t)) - g * t\<close> that is 0 at \<open>t = 0\<close>,
      for the scenario constants.\<close>
  "altitude_upto t =
     (let u = 1 - mdot_const * t / m0_const
      in ve_const * (m0_const / mdot_const) * (u * ln u - u + 1) - g_const * t\<^sup>2 / 2)"

definition h_burnout :: "py_error + real" where
  \<comment> \<open>Modelled from the spec: \<^verbatim>\<open>scipy.integrate.quad\<close> is not part of the repository; the
      spec takes \<^verbatim>\<open>quad(v_func, 0, T)\<close> to return the definite integral of the velocity
      from 0 to \<open>T\<close>, which is the increase of an antiderivative over that interval.\<close>
  "h_burnout = bind_err T_burn (\<lambda>T. Inr (altitude_upto T - altitude_upto 0))"

section \<open>Properties\<close>

subsection \<open>Results inside the finite range\<close>

lemma overflow_threshold_pos: "0 < overflow_threshold"
  by (simp add: overflow_threshold_def)

lemma fl_in_range: "in_range v \<Longrightarrow> fl v = Fin v"
  by (auto simp: in_range_def fl_def)

lemma in_range_mono: "in_range b \<Longrightarrow> \<bar>a\<bar> \<le> \<bar>b\<bar> \<Longrightarrow> in_range a"
  by (simp add: in_range_def)

lemma in_range_small: "\<bar>a\<bar> \<le> 10 ^ 300 \<Longrightarrow> in_range a"
proof -
  have "(10::real) ^ 300 < overflow_threshold"
    by (simp add: overflow_threshold_def)
  then show "\<bar>a\<bar> \<le> 10 ^ 300 \<Longrightarrow> in_range a" by (simp add: in_range_def)
qed

lemma G_pos: "0 < G"
  by (simp add: G_def)

lemma overflow_threshold_gt_one: "1 < overflow_threshold"
  by (simp add: overflow_threshold_def)

lemma fl_zero: "fl 0 = Fin 0"
  using overflow_threshold_pos by (simp add: fl_def)

lemma fl_nonneg: "0 \<le> v \<Longrightarrow> fl v = (if v < overflow_threshold then Fin v else PInf)"
  using overflow_threshold_pos by (auto simp: fl_def)

lemma in_range_nonneg: "0 \<le> v \<Longrightarrow> in_range v \<longleftrightarrow> v < overflow_threshold"
  by (simp add: in_range_def)

lemma in_range_of_square:
  assumes "in_range (a\<^sup>2)"
  shows "in_range a"
proof (cases "\<bar>a\<bar> \<le> 1")
  case True
  then show ?thesis using overflow_threshold_gt_one by (simp add: in_range_def)
next
  case False
  then have "\<bar>a\<bar> * 1 \<le> \<bar>a\<bar> * \<bar>a\<bar>" by (intro mult_left_mono) simp_all
  then have "\<bar>a\<bar> \<le> \<bar>a\<^sup>2\<bar>" by (simp add: power2_eq_square abs_mult)
  with assms show ?thesis by (rule in_range_mono)
qed

lemma np_subtract_Fin: "np_subtract (Fin a) (Fin b) = fl (a - b)"
  by (simp add: np_subtract_def)

lemma np_square_fl:
  "np_square (fl a) = (if a\<^sup>2 < overflow_threshold then Fin (a\<^sup>2) else PInf)"
proof (cases "in_range a")
  case True
  then have "np_square (fl a) = fl (a\<^sup>2)"
    by (simp add: fl_in_range np_square_def power2_eq_square)
  then show ?thesis by (simp add: fl_nonneg)
next
  case False
  then have big: "overflow_threshold \<le> \<bar>a\<bar>" by (simp add: in_range_def)
  have "\<not> in_range (a\<^sup>2)" using False in_range_of_square by blast
  then have sq: "\<not> a\<^sup>2 < overflow_threshold" by (simp add: in_range_nonneg)
  have "fl a = PInf \<or> fl a = NInf"
    using big overflow_threshold_pos by (auto simp: fl_def abs_if split: if_splits)
  then have "np_square (fl a) = PInf" by (auto simp: np_square_def)
  with sq show ?thesis by simp
qed

lemma np_add_nonneg_cases:
  assumes "0 \<le> A" "0 \<le> B"
  shows "np_add (if A < overflow_threshold then Fin A else PInf)
                (if B < overflow_threshold then Fin B else PInf)
           = (if A + B < overflow_threshold then Fin (A + B) else PInf)"
proof (cases "A < overflow_threshold")
  case A: True
  show ?thesis
  proof (cases "B < overflow_threshold")
    case True
    with A assms show ?thesis by (simp add: fl_nonneg)
  next
    case False
    then have "\<not> A + B < overflow_threshold" using assms(1) by linarith
    with A False show ?thesis by simp
  qed
next
  case False
  then have n: "\<not> A + B < overflow_threshold" using assms(2) by linarith
  show ?thesis
    by (cases "B < overflow_threshold") (simp_all add: False n)
qed

lemma sum_squares:
  "np_add (np_square (np_subtract (Fin x) (Fin xM))) (np_square (np_subtract (Fin y) (Fin yM)))
     = (if (x - xM)\<^sup>2 + (y - yM)\<^sup>2 < overflow_threshold
        then Fin ((x - xM)\<^sup>2 + (y - yM)\<^sup>2) else PInf)"
  unfolding np_subtract_Fin np_square_fl
  by (rule np_add_nonneg_cases) simp_all

lemma np_divide_by_large:
  assumes "in_range a" "1 \<le> b"
  shows "np_divide (Fin a) (Fin b) = Fin (a / b)"
proof -
  have "\<bar>a / b\<bar> \<le> \<bar>a\<bar>"
    using assms(2) by (simp add: divide_le_eq mult_le_cancel_left1)
  with assms(1) have "in_range (a / b)" by (rule in_range_mono)
  then show ?thesis using assms(2) by (simp add: fl_in_range)
qed

lemma np_multiply_G:
  assumes "in_range (G * M)"
  shows "np_multiply (np_negative (Fin G)) (Fin M) = Fin (- G * M)"
proof -
  have "in_range (- G * M)" using assms by (simp add: in_range_def)
  then show ?thesis by (simp add: fl_in_range)
qed

lemma gravitational_potential_cases:
  assumes "in_range (G * M)"
  shows "gravitational_potential M xM yM x y =
           (if (x - xM)\<^sup>2 + (y - yM)\<^sup>2 < overflow_threshold
            then Fin (- G * M / max (sqrt ((x - xM)\<^sup>2 + (y - yM)\<^sup>2)) 1000)
            else Fin 0)"
proof -
  let ?d = "(x - xM)\<^sup>2 + (y - yM)\<^sup>2"
  have g: "in_range (- G * M)" using assms by (simp add: in_range_def)
  have pot: "gravitational_potential M xM yM x y =
      np_divide (Fin (- G * M))
        (np_maximum (np_sqrt (if ?d < overflow_threshold then Fin ?d else PInf)) (Fin 1000))"
    unfolding gravitational_potential_def Let_def sum_squares np_multiply_G [OF assms] ..
  show ?thesis
  proof (cases "?d < overflow_threshold")
    case True
    have "\<not> ?d < 0" by (simp add: not_less)
    then have "np_maximum (np_sqrt (Fin ?d)) (Fin 1000) = Fin (max (sqrt ?d) 1000)"
      by simp
    moreover have "np_divide (Fin (- G * M)) (Fin (max (sqrt ?d) 1000))
                     = Fin (- G * M / max (sqrt ?d) 1000)"
      using g by (intro np_divide_by_large) simp_all
    ultimately show ?thesis using True by (simp only: pot if_True)
  next
    case False
    then show ?thesis by (simp only: pot if_False np_sqrt.simps np_maximum.simps np_divide.simps)
  qed
qed

lemma gravitational_potential_closed:
  assumes "in_range ((x - xM)\<^sup>2 + (y - yM)\<^sup>2)" "in_range (G * M)"
  shows "gravitational_potential M xM yM x y =
           Fin (- G * M / max (sqrt ((x - xM)\<^sup>2 + (y - yM)\<^sup>2)) 1000)"
  using assms(1) by (simp add: gravitational_potential_cases [OF assms(2)] in_range_nonneg)

subsection \<open>The force inside the finite range\<close>

lemma sqrt_eqI: "0 \<le> r \<Longrightarrow> a = r\<^sup>2 \<Longrightarrow> sqrt a = r"
  by simp

lemma abs_le_floor_square:
  fixes a :: real
  assumes "a\<^sup>2 \<le> R" "1 \<le> R"
  shows "\<bar>a\<bar> \<le> R"
proof (cases "\<bar>a\<bar> \<le> 1")
  case True
  with assms(2) show ?thesis by linarith
next
  case False
  then have "\<bar>a\<bar> * 1 \<le> \<bar>a\<bar> * \<bar>a\<bar>" by (intro mult_left_mono) simp_all
  then have "\<bar>a\<bar> \<le> a\<^sup>2" by (simp add: power2_eq_square)
  with assms(1) show ?thesis by linarith
qed

lemma abs_le_sqrt_floor:
  fixes a :: real
  assumes "a\<^sup>2 \<le> R"
  shows "\<bar>a\<bar> \<le> sqrt R"
  using assms real_le_rsqrt by (metis power2_abs)

lemma square_le_floor:
  fixes a b :: real
  shows "a\<^sup>2 \<le> max (a\<^sup>2 + b\<^sup>2) 1000000" and "b\<^sup>2 \<le> max (a\<^sup>2 + b\<^sup>2) 1000000"
proof -
  have "a\<^sup>2 \<le> a\<^sup>2 + b\<^sup>2" "b\<^sup>2 \<le> a\<^sup>2 + b\<^sup>2" by simp_all
  then show "a\<^sup>2 \<le> max (a\<^sup>2 + b\<^sup>2) 1000000" and "b\<^sup>2 \<le> max (a\<^sup>2 + b\<^sup>2) 1000000"
    by linarith+
qed

lemma force_component:
  fixes c a R :: real
  assumes R: "1000000 \<le> R" and a: "a\<^sup>2 \<le> R"
    and c: "c = k / R" and k: "in_range k"
  shows "np_divide (np_multiply (Fin c) (Fin a)) (Fin (sqrt R)) = Fin (c * a / sqrt R)"
    and "\<bar>c * a / sqrt R\<bar> \<le> \<bar>k\<bar> / 1000000"
proof -
  have Rpos: "0 < R" using R by linarith
  have "sqrt 1000000 \<le> sqrt R" using R by (simp only: real_sqrt_le_iff)
  then have s: "1000 \<le> sqrt R" by (simp add: sqrt_eqI [of 1000 1000000])
  have aR: "\<bar>a\<bar> \<le> R" using a R by (intro abs_le_floor_square) simp_all
  have as: "\<bar>a\<bar> \<le> sqrt R" using a by (rule abs_le_sqrt_floor)
  have "\<bar>c * a\<bar> = \<bar>k\<bar> * (\<bar>a\<bar> / R)" using Rpos by (simp add: c abs_mult)
  also have "\<dots> \<le> \<bar>k\<bar> * 1"
    using aR Rpos by (intro mult_left_mono) simp_all
  finally have ca: "\<bar>c * a\<bar> \<le> \<bar>k\<bar>" by simp
  then have r1: "in_range (c * a)" using k in_range_mono by blast
  then have m: "np_multiply (Fin c) (Fin a) = Fin (c * a)" by (simp add: fl_in_range)
  have s1: "1 \<le> sqrt R" using s by linarith
  show "np_divide (np_multiply (Fin c) (Fin a)) (Fin (sqrt R)) = Fin (c * a / sqrt R)"
    unfolding m using r1 s1 by (rule np_divide_by_large)
  have "\<bar>c * a / sqrt R\<bar> = (\<bar>k\<bar> / R) * (\<bar>a\<bar> / sqrt R)"
    using Rpos by (simp add: c abs_mult)
  also have "\<dots> \<le> (\<bar>k\<bar> / R) * 1"
  proof (rule mult_left_mono)
    have "0 < sqrt R" using s by linarith
    then show "\<bar>a\<bar> / sqrt R \<le> 1" using as by (simp only: divide_le_eq_1_pos)
    show "0 \<le> \<bar>k\<bar> / R" using Rpos by simp
  qed
  also have "\<dots> \<le> \<bar>k\<bar> / 1000000"
    using R by (simp only: mult_1_right) (rule divide_left_mono, simp_all)
  finally show "\<bar>c * a / sqrt R\<bar> \<le> \<bar>k\<bar> / 1000000" .
qed

lemma gravitational_force_closed:
  fixes M1 m2 x1 y1 x2 y2 :: real
  defines "R2 \<equiv> max ((x2 - x1)\<^sup>2 + (y2 - y1)\<^sup>2) 1000000"
  assumes d: "in_range ((x2 - x1)\<^sup>2 + (y2 - y1)\<^sup>2)"
    and g1: "in_range (G * M1)" and g2: "in_range (G * M1 * m2)"
  shows "gravitational_force M1 m2 x1 y1 x2 y2 =
           (Fin (- G * M1 * m2 / R2 * (x2 - x1) / sqrt R2),
            Fin (- G * M1 * m2 / R2 * (y2 - y1) / sqrt R2))"
proof -
  let ?d = "(x2 - x1)\<^sup>2 + (y2 - y1)\<^sup>2"
  let ?k = "- G * M1 * m2"
  have dlt: "?d < overflow_threshold" using d by (simp add: in_range_nonneg)
  have R: "1000000 \<le> R2" by (simp add: R2_def)
  have k: "in_range ?k" using g2 by (simp add: in_range_def)
  have xr: "in_range ((x2 - x1)\<^sup>2)" "in_range ((y2 - y1)\<^sup>2)"
    using d by (auto elim!: in_range_mono)
  then have dx: "np_subtract (Fin x2) (Fin x1) = Fin (x2 - x1)"
    and dy: "np_subtract (Fin y2) (Fin y1) = Fin (y2 - y1)"
    by (simp_all add: np_subtract_Fin fl_in_range in_range_of_square)
  have r2: "np_maximum (np_add (np_square (np_subtract (Fin x2) (Fin x1)))
                               (np_square (np_subtract (Fin y2) (Fin y1)))) (Fin 1000000)
              = Fin R2"
    unfolding sum_squares using dlt by (simp add: R2_def)
  have "0 \<le> R2" using R by linarith
  then have r: "np_sqrt (Fin R2) = Fin (sqrt R2)" by (simp add: not_less)
  have "np_multiply (np_negative (Fin G)) (Fin M1) = Fin (- G * M1)"
    using g1 by (rule np_multiply_G)
  then have km: "np_multiply (np_multiply (np_negative (Fin G)) (Fin M1)) (Fin m2) = Fin ?k"
    using k by (simp add: fl_in_range)
  have F: "np_divide (Fin ?k) (Fin R2) = Fin (?k / R2)"
    using k R by (intro np_divide_by_large) simp_all
  have ax: "(x2 - x1)\<^sup>2 \<le> R2" and ay: "(y2 - y1)\<^sup>2 \<le> R2"
    unfolding R2_def by (rule square_le_floor)+
  show ?thesis
    unfolding gravitational_force_def Let_def r2 [unfolded dx dy] dx dy r km F
    using force_component(1) [OF R ax refl k] force_component(1) [OF R ay refl k]
    by simp
qed


subsection \<open>The sample grid\<close>

lemma length_x_lin: "length x_lin = grid_pts"
  by (simp add: x_lin_def linspace_def)

lemma length_y_lin: "length y_lin = grid_pts"
  by (simp add: y_lin_def linspace_def)

lemma length_X_grid: "length X_grid = grid_pts"
  by (simp add: X_grid_def meshgrid_def length_y_lin)

lemma length_Y_grid: "length Y_grid = grid_pts"
  by (simp add: Y_grid_def meshgrid_def length_y_lin)

lemma length_X_row: "i < grid_pts \<Longrightarrow> length (X_grid ! i) = grid_pts"
  by (simp add: X_grid_def meshgrid_def length_y_lin length_x_lin)

lemma length_Y_row: "i < grid_pts \<Longrightarrow> length (Y_grid ! i) = grid_pts"
  by (simp add: Y_grid_def meshgrid_def length_y_lin length_x_lin)

lemma X_grid_nth: "i < grid_pts \<Longrightarrow> X_grid ! i ! j = x_lin ! j"
  by (simp add: X_grid_def meshgrid_def length_y_lin)

lemma Y_grid_nth: "i < grid_pts \<Longrightarrow> j < grid_pts \<Longrightarrow> Y_grid ! i ! j = y_lin ! i"
  by (simp add: Y_grid_def meshgrid_def length_y_lin length_x_lin)

lemma linspace_nth_bounds:
  assumes "j < n" "a \<le> b"
  shows "a \<le> linspace a b n ! j" and "linspace a b n ! j \<le> b"
proof -
  have n: "0 < real (n - 1) \<or> j = 0" using assms(1) by (cases n) auto
  have v: "linspace a b n ! j = a + real j * ((b - a) / real (n - 1))"
    using assms(1) by (simp add: linspace_def)
  have "0 \<le> real j * ((b - a) / real (n - 1))"
    using assms(2) by simp
  then show "a \<le> linspace a b n ! j" unfolding v by simp
  have "real j \<le> real (n - 1)" using assms(1) by simp
  then have "real j * ((b - a) / real (n - 1)) \<le> real (n - 1) * ((b - a) / real (n - 1))"
    using assms(2) by (intro mult_right_mono) simp_all
  also have "\<dots> \<le> b - a" using n assms(2) by auto
  finally show "linspace a b n ! j \<le> b" unfolding v by simp
qed

lemma x_lin_bound: "j < grid_pts \<Longrightarrow> \<bar>x_lin ! j\<bar> \<le> 57 * 10 ^ 7"
  using linspace_nth_bounds [of j grid_pts "- 1.5 * d_earth_moon" "1.5 * d_earth_moon"]
  by (simp add: x_lin_def d_earth_moon_def abs_le_iff)

lemma y_lin_bound: "i < grid_pts \<Longrightarrow> \<bar>y_lin ! i\<bar> \<le> 57 * 10 ^ 7"
  using linspace_nth_bounds [of i grid_pts "- 1.5 * d_earth_moon" "1.5 * d_earth_moon"]
  by (simp add: y_lin_def d_earth_moon_def abs_le_iff)

lemma grid_point_bound:
  assumes "i < grid_pts" "j < grid_pts"
  shows "\<bar>X_grid ! i ! j\<bar> \<le> 57 * 10 ^ 7" and "\<bar>Y_grid ! i ! j\<bar> \<le> 57 * 10 ^ 7"
  using assms x_lin_bound [of j] y_lin_bound [of i] by (simp_all add: X_grid_nth Y_grid_nth)

lemma moon_bound: "0 \<le> x_moon" "x_moon \<le> 38 * 10 ^ 7" "y_moon = x_moon"
proof -
  have "1 \<le> sqrt 2" by simp
  then have "d_earth_moon / sqrt 2 \<le> d_earth_moon / 1"
    by (intro divide_left_mono) (simp_all add: d_earth_moon_def)
  then show "x_moon \<le> 38 * 10 ^ 7" by (simp add: x_moon_def d_earth_moon_def)
  show "0 \<le> x_moon" by (simp add: x_moon_def d_earth_moon_def)
  show "y_moon = x_moon" by (simp add: x_moon_def y_moon_def)
qed

lemma square_bound:
  fixes a c :: real
  assumes "\<bar>a\<bar> \<le> c"
  shows "a\<^sup>2 \<le> c\<^sup>2"
proof -
  have "\<bar>a\<bar> \<le> \<bar>c\<bar>" using assms by linarith
  then show ?thesis by (simp only: abs_le_square_iff)
qed

lemma sources_in_range:
  assumes "\<bar>u\<bar> \<le> 57 * 10 ^ 7" "\<bar>v\<bar> \<le> 57 * 10 ^ 7"
  shows "in_range ((u - 0)\<^sup>2 + (v - 0)\<^sup>2)"
    and "in_range ((u - x_moon)\<^sup>2 + (v - y_moon)\<^sup>2)"
proof -
  have m: "\<bar>u - x_moon\<bar> \<le> 10 ^ 9" "\<bar>v - y_moon\<bar> \<le> 10 ^ 9"
    using assms moon_bound by (simp_all add: abs_le_iff)
  have e: "\<bar>u - 0\<bar> \<le> 10 ^ 9" "\<bar>v - 0\<bar> \<le> 10 ^ 9" using assms by simp_all
  have b: "in_range (p\<^sup>2 + q\<^sup>2)" if "\<bar>p\<bar> \<le> 10 ^ 9" "\<bar>q\<bar> \<le> 10 ^ 9" for p q :: real
  proof -
    have "p\<^sup>2 \<le> (10 ^ 9)\<^sup>2" using that(1) by (rule square_bound)
    moreover have "q\<^sup>2 \<le> (10 ^ 9)\<^sup>2" using that(2) by (rule square_bound)
    ultimately have "\<bar>p\<^sup>2 + q\<^sup>2\<bar> \<le> 10 ^ 300" by simp
    then show ?thesis by (rule in_range_small)
  qed
  show "in_range ((u - 0)\<^sup>2 + (v - 0)\<^sup>2)" using e by (rule b)
  show "in_range ((u - x_moon)\<^sup>2 + (v - y_moon)\<^sup>2)" using m by (rule b)
qed

lemma masses_in_range:
  "in_range (G * M_earth)" "in_range (G * M_moon)"
  "in_range (G * M_earth * m_cmd)" "in_range (G * M_moon * m_cmd)"
  by (rule in_range_small; simp add: G_def M_earth_def M_moon_def m_cmd_def)+

lemma grid_potentials:
  assumes "i < grid_pts" "j < grid_pts"
  shows "\<exists>p1 p2. gravitational_potential M_earth 0 0 (X_grid ! i ! j) (Y_grid ! i ! j) = Fin p1
           \<and> gravitational_potential M_moon x_moon y_moon (X_grid ! i ! j) (Y_grid ! i ! j) = Fin p2
           \<and> np_add (Fin p1) (Fin p2) = Fin (p1 + p2)"
proof -
  let ?x = "X_grid ! i ! j" and ?y = "Y_grid ! i ! j"
  note gp = grid_point_bound [OF assms]
  note sr = sources_in_range [OF gp]
  let ?p1 = "- G * M_earth / max (sqrt ((?x - 0)\<^sup>2 + (?y - 0)\<^sup>2)) 1000"
  let ?p2 = "- G * M_moon / max (sqrt ((?x - x_moon)\<^sup>2 + (?y - y_moon)\<^sup>2)) 1000"
  have p1: "gravitational_potential M_earth 0 0 ?x ?y = Fin ?p1"
    using sr(1) masses_in_range(1) by (rule gravitational_potential_closed)
  have p2: "gravitational_potential M_moon x_moon y_moon ?x ?y = Fin ?p2"
    using sr(2) masses_in_range(2) by (rule gravitational_potential_closed)
  have b: "\<bar>- G * M / max r 1000\<bar> \<le> \<bar>G * M\<bar>" for M r :: real
    by (simp add: divide_le_eq mult_le_cancel_left1 max_def)
  have "\<bar>?p1\<bar> \<le> \<bar>G * M_earth\<bar>" "\<bar>?p2\<bar> \<le> \<bar>G * M_moon\<bar>" by (rule b)+
  then have "\<bar>?p1 + ?p2\<bar> \<le> \<bar>G * M_earth\<bar> + \<bar>G * M_moon\<bar>" by linarith
  also have "\<dots> \<le> 10 ^ 300" by (simp add: G_def M_earth_def M_moon_def)
  finally have "in_range (?p1 + ?p2)" by (rule in_range_small)
  then have "np_add (Fin ?p1) (Fin ?p2) = Fin (?p1 + ?p2)" by (simp add: fl_in_range)
  with p1 p2 show ?thesis by blast
qed



subsection \<open>The double loop and the pointwise map\<close>

lemma cell_body_in_range:
  assumes "i < grid_pts" "j < grid_pts"
    and "length Fx = grid_pts" "length Fy = grid_pts"
    and "length (Fx ! i) = grid_pts" "length (Fy ! i) = grid_pts"
  shows "cell_body i j (Fx, Fy) =
           Inr (Fx[i := (Fx ! i)[j := fst (total_force_at (X_grid ! i ! j) (Y_grid ! i ! j))]],
                Fy[i := (Fy ! i)[j := snd (total_force_at (X_grid ! i ! j) (Y_grid ! i ! j))]])"
  using assms
  by (simp add: cell_body_def getitem2_def setitem2_def length_X_grid length_Y_grid
      length_X_row length_Y_row total_force_at_def split: prod.splits)

lemma well_shaped_nth:
  "well_shaped F \<longleftrightarrow> length F = grid_pts \<and> (\<forall>i<grid_pts. length (F ! i) = grid_pts)"
  by (auto simp: well_shaped_def list_all_length)

lemma well_shaped_update:
  assumes "well_shaped F"
  shows "well_shaped (F[i := (F ! i)[j := v]])"
proof -
  have "length (F[i := (F ! i)[j := v]] ! a) = grid_pts" if "a < grid_pts" for a
    using assms that by (cases "a = i") (simp_all add: well_shaped_nth)
  then show ?thesis using assms by (simp add: well_shaped_nth)
qed

lemma nth_update2:
  assumes "i < length F" "j < length (F ! i)"
  shows "F[i := (F ! i)[j := v]] ! a ! b = (if a = i \<and> b = j then v else F ! a ! b)"
  using assms by (auto simp: nth_list_update)

lemma well_shaped_zeros_X: "well_shaped (zeros_like X_grid)"
  by (simp add: well_shaped_nth zeros_like_def length_X_grid length_X_row)

lemma well_shaped_zeros_Y: "well_shaped (zeros_like Y_grid)"
  by (simp add: well_shaped_nth zeros_like_def length_Y_grid length_Y_row)

lemma run_cells_result:
  assumes "well_shaped Fx" "well_shaped Fy"
    and "\<forall>c \<in> set cells. fst c < grid_pts \<and> snd c < grid_pts"
  shows "\<exists>Fx' Fy'. run_cells cells (Fx, Fy) = Inr (Fx', Fy')
           \<and> well_shaped Fx' \<and> well_shaped Fy'
           \<and> (\<forall>a<grid_pts. \<forall>b<grid_pts.
                 Fx' ! a ! b = (if (a, b) \<in> set cells
                                then fst (total_force_at (X_grid ! a ! b) (Y_grid ! a ! b))
                                else Fx ! a ! b)
               \<and> Fy' ! a ! b = (if (a, b) \<in> set cells
                                then snd (total_force_at (X_grid ! a ! b) (Y_grid ! a ! b))
                                else Fy ! a ! b))"
  using assms
proof (induction cells arbitrary: Fx Fy)
  case Nil
  then show ?case by simp
next
  case (Cons c cs)
  obtain i j where c: "c = (i, j)" by (cases c)
  from Cons.prems(3) c have ij: "i < grid_pts" "j < grid_pts" by auto
  let ?vx = "fst (total_force_at (X_grid ! i ! j) (Y_grid ! i ! j))"
  let ?vy = "snd (total_force_at (X_grid ! i ! j) (Y_grid ! i ! j))"
  let ?Fx1 = "Fx[i := (Fx ! i)[j := ?vx]]"
  let ?Fy1 = "Fy[i := (Fy ! i)[j := ?vy]]"
  from Cons.prems(1,2) ij have len:
    "length Fx = grid_pts" "length Fy = grid_pts"
    "length (Fx ! i) = grid_pts" "length (Fy ! i) = grid_pts"
    by (simp_all add: well_shaped_nth)
  have step: "cell_body i j (Fx, Fy) = Inr (?Fx1, ?Fy1)"
    using ij len by (rule cell_body_in_range)
  have ws: "well_shaped ?Fx1" "well_shaped ?Fy1"
    using Cons.prems(1,2) by (simp_all add: well_shaped_update)
  from Cons.prems(3) have rest: "\<forall>c \<in> set cs. fst c < grid_pts \<and> snd c < grid_pts" by simp
  from Cons.IH [OF ws rest] obtain Fx' Fy' where
    run: "run_cells cs (?Fx1, ?Fy1) = Inr (Fx', Fy')"
    and ws': "well_shaped Fx'" "well_shaped Fy'"
    and val: "\<And>a b. a < grid_pts \<Longrightarrow> b < grid_pts \<Longrightarrow>
        Fx' ! a ! b = (if (a, b) \<in> set cs
                       then fst (total_force_at (X_grid ! a ! b) (Y_grid ! a ! b))
                       else ?Fx1 ! a ! b)
      \<and> Fy' ! a ! b = (if (a, b) \<in> set cs
                       then snd (total_force_at (X_grid ! a ! b) (Y_grid ! a ! b))
                       else ?Fy1 ! a ! b)"
    by blast
  have upd: "?Fx1 ! a ! b = (if a = i \<and> b = j then ?vx else Fx ! a ! b)"
       "?Fy1 ! a ! b = (if a = i \<and> b = j then ?vy else Fy ! a ! b)" for a b
    using ij len by (simp_all add: nth_update2)
  have "run_cells (c # cs) (Fx, Fy) = Inr (Fx', Fy')"
    by (simp add: c step run)
  moreover have "\<forall>a<grid_pts. \<forall>b<grid_pts.
        Fx' ! a ! b = (if (a, b) \<in> set (c # cs)
                       then fst (total_force_at (X_grid ! a ! b) (Y_grid ! a ! b))
                       else Fx ! a ! b)
      \<and> Fy' ! a ! b = (if (a, b) \<in> set (c # cs)
                       then snd (total_force_at (X_grid ! a ! b) (Y_grid ! a ! b))
                       else Fy ! a ! b)"
    using val by (auto simp: c upd)
  ultimately show ?case using ws' by blast
qed

lemma fst_vectorized_nth:
  assumes "a < grid_pts" "b < grid_pts"
  shows "fst vectorized_force_field ! a ! b = fst (total_force_at (X_grid ! a ! b) (Y_grid ! a ! b))"
    and "snd vectorized_force_field ! a ! b = snd (total_force_at (X_grid ! a ! b) (Y_grid ! a ! b))"
  using assms
  by (simp_all add: vectorized_force_field_def length_X_grid length_Y_grid length_X_row length_Y_row)

lemma well_shaped_vectorized:
  "well_shaped (fst vectorized_force_field)" "well_shaped (snd vectorized_force_field)"
  by (simp_all add: well_shaped_nth vectorized_force_field_def length_X_grid length_Y_grid
      length_X_row length_Y_row)

lemma well_shaped_eqI:
  assumes "well_shaped A" "well_shaped B"
    and "\<And>a b. a < grid_pts \<Longrightarrow> b < grid_pts \<Longrightarrow> A ! a ! b = B ! a ! b"
  shows "A = B"
proof (rule nth_equalityI)
  show "length A = length B" using assms(1,2) by (simp add: well_shaped_nth)
next
  fix a assume "a < length A"
  then have a: "a < grid_pts" using assms(1) by (simp add: well_shaped_nth)
  show "A ! a = B ! a"
  proof (rule nth_equalityI)
    show "length (A ! a) = length (B ! a)" using assms(1,2) a by (simp add: well_shaped_nth)
  next
    fix b assume "b < length (A ! a)"
    then have "b < grid_pts" using assms(1) a by (simp add: well_shaped_nth)
    then show "A ! a ! b = B ! a ! b" using a by (rule assms(3) [rotated])
  qed
qed

lemma run_cells_full:
  assumes "set cells = {0..<grid_pts} \<times> {0..<grid_pts}"
  shows "run_cells cells (zeros_like X_grid, zeros_like Y_grid) = Inr vectorized_force_field"
proof -
  have rng: "\<forall>c \<in> set cells. fst c < grid_pts \<and> snd c < grid_pts"
    using assms by auto
  from run_cells_result [OF well_shaped_zeros_X well_shaped_zeros_Y rng]
  obtain Fx' Fy' where
    run: "run_cells cells (zeros_like X_grid, zeros_like Y_grid) = Inr (Fx', Fy')"
    and ws: "well_shaped Fx'" "well_shaped Fy'"
    and val: "\<And>a b. a < grid_pts \<Longrightarrow> b < grid_pts \<Longrightarrow>
        Fx' ! a ! b = (if (a, b) \<in> set cells
                       then fst (total_force_at (X_grid ! a ! b) (Y_grid ! a ! b))
                       else zeros_like X_grid ! a ! b)
      \<and> Fy' ! a ! b = (if (a, b) \<in> set cells
                       then snd (total_force_at (X_grid ! a ! b) (Y_grid ! a ! b))
                       else zeros_like Y_grid ! a ! b)"
    by blast
  have mem: "(a, b) \<in> set cells" if "a < grid_pts" "b < grid_pts" for a b
    using that assms by simp
  have "Fx' = fst vectorized_force_field"
    using ws(1) well_shaped_vectorized(1)
    by (rule well_shaped_eqI) (simp add: val mem fst_vectorized_nth)
  moreover have "Fy' = snd vectorized_force_field"
    using ws(2) well_shaped_vectorized(2)
    by (rule well_shaped_eqI) (simp add: val mem fst_vectorized_nth)
  ultimately show ?thesis using run by simp
qed

lemma run_cells_append:
  "run_cells (cs @ ds) s = bind_err (run_cells cs s) (run_cells ds)"
proof (induction cs arbitrary: s)
  case Nil
  show ?case by simp
next
  case (Cons c cs)
  obtain i j where c: "c = (i, j)" by (cases c)
  show ?case
    by (cases "cell_body i j s") (simp_all add: c Cons.IH)
qed

lemma inner_loop_run_cells: "inner_loop i js s = run_cells (map (Pair i) js) s"
proof (induction js arbitrary: s)
  case Nil
  show ?case by simp
next
  case (Cons j js)
  show ?case by (cases "cell_body i j s") (simp_all add: Cons.IH)
qed

lemma outer_loop_run_cells:
  "outer_loop ns s = run_cells (List.product ns [0..<grid_pts]) s"
proof (induction ns arbitrary: s)
  case Nil
  show ?case by simp
next
  case (Cons i ns)
  show ?case
    by (cases "inner_loop i [0..<grid_pts] s")
       (simp_all add: run_cells_append inner_loop_run_cells [symmetric] Cons.IH)
qed

lemma force_field_total_eq: "force_field_total = Inr vectorized_force_field"
  unfolding force_field_total_def outer_loop_run_cells
  by (rule run_cells_full) simp

lemma phi_total_nth:
  assumes "i < grid_pts" "j < grid_pts"
  shows "phi_total ! i ! j =
           np_add (gravitational_potential M_earth 0 0 (X_grid ! i ! j) (Y_grid ! i ! j))
                  (gravitational_potential M_moon x_moon y_moon (X_grid ! i ! j) (Y_grid ! i ! j))"
  using assms
  by (simp add: phi_total_def gravitational_potential_arr_def length_X_grid length_Y_grid
      length_X_row length_Y_row)



subsection \<open>The floor and the direction of the force\<close>

lemma in_range_G_mult:
  assumes "in_range M"
  shows "in_range (G * M)"
proof -
  have "\<bar>G\<bar> \<le> 1" by (simp add: G_def)
  then have "\<bar>G\<bar> * \<bar>M\<bar> \<le> 1 * \<bar>M\<bar>" by (intro mult_right_mono) simp_all
  then have "\<bar>G * M\<bar> \<le> \<bar>M\<bar>" by (simp add: abs_mult)
  with assms show ?thesis by (rule in_range_mono)
qed

lemma gravitational_potential_finite:
  assumes "in_range M"
  shows "finite_float (gravitational_potential M xM yM x y)"
  by (simp add: gravitational_potential_cases [OF in_range_G_mult [OF assms]])

lemma huge_not_in_range: "\<not> (10 ^ 400 :: real) < overflow_threshold"
  by (simp add: overflow_threshold_def)

lemma sqrt_million: "sqrt 1000000 = 1000"
  by (rule sqrt_eqI) simp_all



subsection \<open>Rounding and the two states of the velocity profile\<close>









lemma np_greater_maximum_Fin:
  "np_greater (np_maximum (Fin a) (Fin b)) (Fin b) \<longleftrightarrow> b < a"
  by (simp add: max_def)

lemma delta_v_rnd_burning:
  assumes m: "m_t_rnd rnd t m0 mf mdot = Fin m" "mf < m" "m \<le> m0" and mf: "0 < mf"
    and r: "in_range (m0 / mf)" "in_range (ve * ln (m0 / m))" "in_range (g * t)"
      "in_range (ve * ln (m0 / m) - g * t)"
  shows "delta_v_rnd rnd t m0 mf mdot ve g = Fin (ve * ln (m0 / m) - g * t)"
proof -
  have mpos: "0 < m" using m(2) mf by linarith
  then have m0pos: "0 < m0" using m(3) by linarith
  have q1: "1 \<le> m0 / m" using mpos m(3) by simp
  have "m0 / m \<le> m0 / mf" using m(2) mf m0pos by (intro divide_left_mono) simp_all
  then have "\<bar>m0 / m\<bar> \<le> \<bar>m0 / mf\<bar>" using q1 by linarith
  with r(1) have rq: "in_range (m0 / m)" by (rule in_range_mono)
  then have d: "np_divide (Fin m0) (Fin m) = Fin (m0 / m)"
    using mpos by (simp add: fl_in_range)
  have "0 \<le> ln (m0 / m)" using q1 by simp
  moreover have "ln (m0 / m) \<le> m0 / m" using q1 by (intro ln_bound) linarith
  ultimately have "\<bar>ln (m0 / m)\<bar> \<le> \<bar>m0 / m\<bar>" by linarith
  with rq have "in_range (ln (m0 / m))" by (rule in_range_mono)
  moreover have "\<not> m0 / m < 0" "m0 / m \<noteq> 0" using q1 by linarith+
  ultimately have l: "np_log (Fin (m0 / m)) = Fin (ln (m0 / m))"
    by (simp only: np_log.simps if_False fl_in_range)
  have v: "np_multiply (Fin ve) (Fin (ln (m0 / m))) = Fin (ve * ln (m0 / m))"
    and gt: "np_multiply (Fin g) (Fin t) = Fin (g * t)"
    using r(2,3) by (simp_all add: fl_in_range)
  have s: "np_subtract (Fin (ve * ln (m0 / m))) (Fin (g * t)) = Fin (ve * ln (m0 / m) - g * t)"
    using r(4) by (simp add: np_subtract_Fin fl_in_range)
  have gr: "np_greater (Fin m) (Fin mf)" using m(2) by simp
  show ?thesis
    unfolding delta_v_rnd_def Let_def m(1) by (simp only: gr if_True d l v gt s)
qed






lemma ln_ratio_bounds: "114 / 100 < ln (56 / 15 :: real)" "ln (56 / 15 :: real) < 17 / 10"
proof -
  have "exp (114 / 100 :: real) = exp 1 * exp (14 / 100)" by (simp add: exp_add [symmetric])
  also have "\<dots> \<le> 3 * (1 + 14 / 100 + (14 / 100)\<^sup>2)"
    using exp_le exp_bound [of "14 / 100 :: real"] by (intro mult_mono) simp_all
  also have "\<dots> < 56 / 15" by (simp add: power2_eq_square)
  finally have "exp (114 / 100) < exp (ln (56 / 15 :: real))" by simp
  then show "114 / 100 < ln (56 / 15 :: real)" by (simp only: exp_less_cancel_iff)
  have "(1 + 17 / 40 :: real) ^ 4 \<le> exp (17 / 40) ^ 4"
    by (intro power_mono exp_ge_add_one_self) simp
  also have "\<dots> = exp (17 / 10 :: real)"
    using exp_of_nat_mult [of 4 "17 / 40 :: real"] by simp
  finally have "(56 / 15 :: real) < exp (17 / 10)" by (simp add: power4_eq_xxxx)
  then have "exp (ln (56 / 15 :: real)) < exp (17 / 10)" by simp
  then show "ln (56 / 15 :: real) < 17 / 10" by (simp only: exp_less_cancel_iff)
qed

lemma antiderivative_burning:
  fixes ve m0 mdot g t :: real
  assumes "0 < m0" "0 < mdot" "mdot * t < m0"
  shows "((\<lambda>t. ve * (m0 / mdot) * ((1 - mdot * t / m0) * ln (1 - mdot * t / m0)
                    - (1 - mdot * t / m0) + 1) - g * t\<^sup>2 / 2)
          has_real_derivative ve * ln (m0 / (m0 - mdot * t)) - g * t) (at t)"
proof -
  have u: "0 < 1 - mdot * t / m0" using assms by simp
  have l: "ln (m0 / (m0 - mdot * t)) = - ln (1 - mdot * t / m0)"
  proof -
    have "1 - mdot * t / m0 = (m0 - mdot * t) / m0" using assms(1) by (simp add: field_simps)
    then have "ln (1 - mdot * t / m0) = ln (m0 - mdot * t) - ln m0"
      using assms by (simp add: ln_div)
    moreover have "ln (m0 / (m0 - mdot * t)) = ln m0 - ln (m0 - mdot * t)"
      using assms by (simp add: ln_div)
    ultimately show ?thesis by simp
  qed
  define U where "U = 1 - mdot * t / m0"
  have Upos: "0 < U" using u by (simp add: U_def)
  have du: "((\<lambda>t. 1 - mdot * t / m0) has_real_derivative - (mdot / m0)) (at t)"
    using assms(1) by (auto intro!: derivative_eq_intros)
  have dl: "((\<lambda>t. ln (1 - mdot * t / m0)) has_real_derivative - (mdot / m0) / U) (at t)"
    using u assms(1) by (auto intro!: derivative_eq_intros simp: U_def)
  have dp: "((\<lambda>t. (1 - mdot * t / m0) * ln (1 - mdot * t / m0))
              has_real_derivative - (mdot / m0) * ln U + - (mdot / m0) / U * U) (at t)"
    using DERIV_mult [OF du dl] unfolding U_def .
  have "- (mdot / m0) / U * U = - (mdot / m0)" using Upos by simp
  then have dp': "((\<lambda>t. (1 - mdot * t / m0) * ln (1 - mdot * t / m0))
              has_real_derivative - (mdot / m0) * ln U + - (mdot / m0)) (at t)"
    using dp by (simp only:)
  have db: "((\<lambda>t. (1 - mdot * t / m0) * ln (1 - mdot * t / m0) - (1 - mdot * t / m0) + 1)
              has_real_derivative - (mdot / m0) * ln U) (at t)"
    by (rule DERIV_cong [OF DERIV_add [OF DERIV_diff [OF dp' du] DERIV_const [of 1]]]) simp
  have dq: "((\<lambda>t. g * t\<^sup>2 / 2) has_real_derivative g * t) (at t)"
    by (auto intro!: derivative_eq_intros)
  have "((\<lambda>t. ve * (m0 / mdot) * ((1 - mdot * t / m0) * ln (1 - mdot * t / m0)
                    - (1 - mdot * t / m0) + 1) - g * t\<^sup>2 / 2)
          has_real_derivative ve * (m0 / mdot) * (- (mdot / m0) * ln U) - g * t) (at t)"
    by (rule DERIV_diff [OF DERIV_cmult [OF db] dq])
  moreover have "ve * (m0 / mdot) * (- (mdot / m0) * ln U) = ve * - ln U"
    using assms(1,2) by simp
  ultimately show ?thesis unfolding l U_def by simp
qed

subsection \<open>The antiderivative of the burning velocity\<close>

lemma T_value: "(m0_const - mf_const) / mdot_const = 2050 / 13"
  by (simp add: m0_const_def mf_const_def mdot_const_def)

lemma delta_v_scenario:
  assumes "0 \<le> t" "t < (m0_const - mf_const) / mdot_const"
  shows "delta_v t m0_const mf_const mdot_const ve_const g_const
           = Fin (ve_const * ln (m0_const / (m0_const - mdot_const * t)) - g_const * t)"
proof -
  let ?m = "m0_const - mdot_const * t"
  have t: "t < 2050 / 13" using assms(2) by (simp only: T_value)
  have m: "mf_const < ?m" "?m \<le> m0_const"
    using assms(1) t by (simp_all add: m0_const_def mf_const_def mdot_const_def)
  have p: "in_range (mdot_const * t)" "in_range ?m"
    using assms(1) t by (intro in_range_small; simp add: m0_const_def mdot_const_def)+
  then have mt: "m_t_rnd (\<lambda>v. v) t m0_const mf_const mdot_const = Fin ?m"
    using m(1) by (simp add: m_t_rnd_def fl_in_range np_subtract_Fin max_def)
  have q: "1 \<le> m0_const / ?m" "m0_const / ?m \<le> 4"
    using m by (simp_all add: m0_const_def mf_const_def pos_le_divide_eq pos_divide_le_eq)
  then have l: "0 \<le> ln (m0_const / ?m)" "ln (m0_const / ?m) \<le> 4"
    using ln_bound [of "m0_const / ?m"] by simp_all
  have v: "0 \<le> ve_const * ln (m0_const / ?m)" "ve_const * ln (m0_const / ?m) \<le> 9600"
    using l by (simp_all add: ve_const_def)
  have g: "0 \<le> g_const * t" "g_const * t \<le> 2000"
    using assms(1) t by (simp_all add: g_const_def)
  have r: "in_range (m0_const / mf_const)" "in_range (ve_const * ln (m0_const / ?m))"
    "in_range (g_const * t)" "in_range (ve_const * ln (m0_const / ?m) - g_const * t)"
  proof -
    show "in_range (m0_const / mf_const)"
      by (rule in_range_small) (simp add: m0_const_def mf_const_def)
    show "in_range (ve_const * ln (m0_const / ?m))" using v by (intro in_range_small) simp
    show "in_range (g_const * t)" using g by (intro in_range_small) simp
    show "in_range (ve_const * ln (m0_const / ?m) - g_const * t)"
      using v g by (intro in_range_small) simp
  qed
  have mf: "0 < mf_const" by (simp add: mf_const_def)
  show ?thesis
    unfolding delta_v_def by (rule delta_v_rnd_burning [OF mt m mf r])
qed

lemma altitude_upto_deriv:
  assumes "mdot_const * t < m0_const"
  shows "(altitude_upto has_real_derivative
           ve_const * ln (m0_const / (m0_const - mdot_const * t)) - g_const * t) (at t)"
proof -
  have "0 < m0_const" "0 < mdot_const" by (simp_all add: m0_const_def mdot_const_def)
  from antiderivative_burning [OF this assms, of ve_const g_const]
  show ?thesis
    unfolding altitude_upto_def [abs_def] Let_def .
qed

lemma burning_before_T:
  assumes "t \<le> (m0_const - mf_const) / mdot_const"
  shows "mdot_const * t < m0_const"
  using assms unfolding T_value by (simp add: m0_const_def mdot_const_def)

lemma altitude_upto_continuous:
  "continuous_on {0 .. (m0_const - mf_const) / mdot_const} altitude_upto"
proof (rule DERIV_continuous_on)
  fix t assume "t \<in> {0 .. (m0_const - mf_const) / mdot_const}"
  then have "mdot_const * t < m0_const" by (intro burning_before_T) simp
  then have "(altitude_upto has_real_derivative
           ve_const * ln (m0_const / (m0_const - mdot_const * t)) - g_const * t) (at t)"
    by (rule altitude_upto_deriv)
  then show "(altitude_upto has_real_derivative
           ve_const * ln (m0_const / (m0_const - mdot_const * t)) - g_const * t)
           (at t within {0 .. (m0_const - mf_const) / mdot_const})"
    by (rule has_field_derivative_at_within)
qed

lemma altitude_at_T:
  "altitude_upto ((m0_const - mf_const) / mdot_const) - altitude_upto 0
     = ve_const * ((m0_const - mf_const) / mdot_const
                   - mf_const / mdot_const * ln (m0_const / mf_const))
       - g_const * ((m0_const - mf_const) / mdot_const)\<^sup>2 / 2"
proof -
  have "ln (15 / 56 :: real) = - ln (56 / 15)"
    using ln_div [of 15 "56 :: real"] ln_div [of 56 "15 :: real"] by simp
  moreover define L where "L = ln (56 / 15 :: real)"
  ultimately have l: "ln (15 / 56 :: real) = - L" by simp
  have "2400 * (2800000 / 13000) * (15 / 56 * - L - 15 / 56 + 1) - 981 / 100 * (2050 / 13)\<^sup>2 / 2
          = 2400 * (2050 / 13 - 750000 / 13000 * L) - 981 / 100 * (2050 / 13)\<^sup>2 / 2"
    by (simp add: algebra_simps)
  then show ?thesis
    by (simp add: altitude_upto_def m0_const_def mf_const_def mdot_const_def
        ve_const_def g_const_def l L_def [symmetric])
qed

lemma altitude_bounds:
  "10 ^ 4 < ve_const * ((m0_const - mf_const) / mdot_const
                   - mf_const / mdot_const * ln (m0_const / mf_const))
       - g_const * ((m0_const - mf_const) / mdot_const)\<^sup>2 / 2"
  "ve_const * ((m0_const - mf_const) / mdot_const
                   - mf_const / mdot_const * ln (m0_const / mf_const))
       - g_const * ((m0_const - mf_const) / mdot_const)\<^sup>2 / 2 < 10 ^ 5"
  using ln_ratio_bounds
  by (simp_all add: m0_const_def mf_const_def mdot_const_def ve_const_def g_const_def
      power2_eq_square algebra_simps)

lemma burnout_integral_unique:
  assumes c: "continuous_on {0 .. (m0_const - mf_const) / mdot_const} F"
    and d: "\<And>t. 0 < t \<Longrightarrow> t < (m0_const - mf_const) / mdot_const \<Longrightarrow>
              \<exists>v. delta_v t m0_const mf_const mdot_const ve_const g_const = Fin v
                   \<and> (F has_real_derivative v) (at t)"
  shows "Inr (F ((m0_const - mf_const) / mdot_const) - F 0) = h_burnout"
proof -
  let ?T = "(m0_const - mf_const) / mdot_const"
  have T: "0 < ?T" by (simp add: T_value)
  have "continuous_on {0 .. ?T} (\<lambda>t. F t - altitude_upto t)"
    using c altitude_upto_continuous by (rule continuous_on_diff)
  moreover have "((\<lambda>t. F t - altitude_upto t) has_real_derivative 0) (at t)"
    if "0 < t" "t < ?T" for t
  proof -
    from d [OF that] obtain v where
      v: "delta_v t m0_const mf_const mdot_const ve_const g_const = Fin v"
      and f: "(F has_real_derivative v) (at t)" by blast
    from that have "0 \<le> t" by simp
    from v delta_v_scenario [OF this that(2)]
    have "v = ve_const * ln (m0_const / (m0_const - mdot_const * t)) - g_const * t" by simp
    with altitude_upto_deriv [OF burning_before_T] that(2)
    have "(altitude_upto has_real_derivative v) (at t)" by simp
    from DERIV_diff [OF f this] show ?thesis by simp
  qed
  ultimately have "F ?T - altitude_upto ?T = F 0 - altitude_upto 0"
    using T by (intro DERIV_isconst_end [of 0 ?T "\<lambda>t. F t - altitude_upto t"]) simp_all
  then have "F ?T - F 0 = altitude_upto ?T - altitude_upto 0" by simp
  moreover have "h_burnout = Inr (altitude_upto ?T - altitude_upto 0)"
    by (simp add: h_burnout_def T_burn_def py_truediv_def mdot_const_def)
  ultimately show ?thesis by simp
qed

section \<open>The claims\<close>

text \<open>
  C1, as the code has it. For a mass \<open>M\<close> that is a finite double, at \<open>(xM, yM)\<close>, and a
  query point \<open>(x, y)\<close> whose squared distance to the mass is below the overflow threshold,
  the potential is \<open>- G * M / r\<close>, where \<open>r\<close> is the Euclidean distance from the query
  point to the mass, floored at 1000 before the division (the divisor is at least 1000, the
  division is never by zero). For every query point, also where the squares overflow, the
  result is a finite number, neither \<open>NaN\<close> nor an infinity.
\<close>

theorem gravitational_potential_formula:
  assumes "in_range M"
  shows "(in_range ((x - xM)\<^sup>2 + (y - yM)\<^sup>2) \<longrightarrow>
            gravitational_potential M xM yM x y =
              Fin (- G * M / max (sqrt ((x - xM)\<^sup>2 + (y - yM)\<^sup>2)) 1000)
            \<and> 1000 \<le> max (sqrt ((x - xM)\<^sup>2 + (y - yM)\<^sup>2)) 1000)
       \<and> finite_float (gravitational_potential M xM yM x y)"
proof (intro conjI impI)
  assume "in_range ((x - xM)\<^sup>2 + (y - yM)\<^sup>2)"
  then show "gravitational_potential M xM yM x y =
      Fin (- G * M / max (sqrt ((x - xM)\<^sup>2 + (y - yM)\<^sup>2)) 1000)"
    using in_range_G_mult [OF assms] by (rule gravitational_potential_closed)
next
  show "1000 \<le> max (sqrt ((x - xM)\<^sup>2 + (y - yM)\<^sup>2)) 1000" by simp
next
  show "finite_float (gravitational_potential M xM yM x y)"
    using assms by (rule gravitational_potential_finite)
qed

theorem gravitational_potential_formula_witness:
  "in_range M_earth
   \<and> in_range ((3000 - 0)\<^sup>2 + (4000 - 0)\<^sup>2)
   \<and> gravitational_potential M_earth 0 0 3000 4000 =
        Fin (- G * M_earth / max (sqrt ((3000 - 0)\<^sup>2 + (4000 - 0)\<^sup>2)) 1000)
   \<and> 1000 \<le> max (sqrt ((3000 - 0)\<^sup>2 + (4000 - 0)\<^sup>2)) (1000 :: real)
   \<and> finite_float (gravitational_potential M_earth 0 0 (10 ^ 200) 0)"
proof -
  have m: "in_range M_earth" by (rule in_range_small) (simp add: M_earth_def)
  have d: "in_range ((3000 - 0)\<^sup>2 + (4000 - 0)\<^sup>2)" by (rule in_range_small) simp
  from gravitational_potential_formula [OF m, of 3000 0 4000 0]
       gravitational_potential_formula [OF m, of "10 ^ 200" 0 0 0] m d
  show ?thesis by blast
qed

text \<open>
  C1 as stated fails where the squared distance overflows. For the unit mass at the origin
  and the query point \<open>(1e200, 0)\<close> the square is infinite, so are \<open>r\<close> and the floored
  \<open>r\<close>, and the quotient is zero, not \<open>- G * M / r = - G / 1e200\<close>.
\<close>

theorem gravitational_potential_overflow_counterexample:
  "in_range 1
   \<and> gravitational_potential 1 0 0 (10 ^ 200) 0 = Fin 0
   \<and> - G * 1 / max (sqrt ((10 ^ 200 - 0)\<^sup>2 + (0 - 0)\<^sup>2)) 1000 = - G / 10 ^ 200
   \<and> Fin 0 \<noteq> Fin (- G / 10 ^ 200)"
proof -
  have one: "in_range 1" by (rule in_range_small) simp
  have g: "in_range (G * 1)" using one by (rule in_range_G_mult)
  have d: "(10 ^ 200 - 0)\<^sup>2 + (0 - 0)\<^sup>2 = (10 ^ 400 :: real)" by simp
  have p: "gravitational_potential 1 0 0 (10 ^ 200) 0 = Fin 0"
    unfolding gravitational_potential_cases [OF g] d using huge_not_in_range by simp
  have s: "sqrt ((10 ^ 200 - 0)\<^sup>2 + (0 - 0)\<^sup>2) = (10 ^ 200 :: real)"
    by (rule sqrt_eqI) simp_all
  have v: "- G * 1 / max (sqrt ((10 ^ 200 - 0)\<^sup>2 + (0 - 0)\<^sup>2)) 1000 = - G / 10 ^ 200"
    unfolding s by simp
  have ne: "Fin 0 \<noteq> Fin (- G / 10 ^ 200)" using G_pos by simp
  show ?thesis using one p v ne by (intro conjI)
qed










text \<open>
  C5. At every grid point the total potential \<open>phi_total\<close> of the two sources is the sum
  of \<open>gravitational_potential\<close> evaluated for the Earth alone and for the Moon alone at
  that point: both are finite and the entry is exactly their sum, with no other term.
\<close>

theorem phi_total_superposition:
  "length phi_total = grid_pts
   \<and> (\<forall>i<grid_pts. \<forall>j<grid_pts.
        length (phi_total ! i) = grid_pts
      \<and> phi_total ! i ! j =
          np_add (gravitational_potential M_earth 0 0 (X_grid ! i ! j) (Y_grid ! i ! j))
                 (gravitational_potential M_moon x_moon y_moon (X_grid ! i ! j) (Y_grid ! i ! j))
      \<and> (\<exists>p1 p2. gravitational_potential M_earth 0 0 (X_grid ! i ! j) (Y_grid ! i ! j) = Fin p1
                \<and> gravitational_potential M_moon x_moon y_moon (X_grid ! i ! j) (Y_grid ! i ! j) = Fin p2
                \<and> phi_total ! i ! j = Fin (p1 + p2)))"
proof (intro conjI allI impI)
  show "length phi_total = grid_pts"
    by (simp add: phi_total_def gravitational_potential_arr_def length_X_grid length_Y_grid)
next
  fix i j assume "i < grid_pts" "j < grid_pts"
  then show "length (phi_total ! i) = grid_pts"
    by (simp add: phi_total_def gravitational_potential_arr_def length_X_grid length_Y_grid
      length_X_row length_Y_row)
next
  fix i j assume "i < grid_pts" "j < grid_pts"
  then show "phi_total ! i ! j =
          np_add (gravitational_potential M_earth 0 0 (X_grid ! i ! j) (Y_grid ! i ! j))
                 (gravitational_potential M_moon x_moon y_moon (X_grid ! i ! j) (Y_grid ! i ! j))"
    by (rule phi_total_nth)
next
  fix i j assume ij: "i < grid_pts" "j < grid_pts"
  show "\<exists>p1 p2. gravitational_potential M_earth 0 0 (X_grid ! i ! j) (Y_grid ! i ! j) = Fin p1
                \<and> gravitational_potential M_moon x_moon y_moon (X_grid ! i ! j) (Y_grid ! i ! j) = Fin p2
                \<and> phi_total ! i ! j = Fin (p1 + p2)"
    unfolding phi_total_nth [OF ij] using grid_potentials [OF ij] by auto
qed

theorem phi_total_superposition_witness:
  "0 < grid_pts \<and> 499 < grid_pts
   \<and> length (phi_total ! 0) = grid_pts
   \<and> phi_total ! 0 ! 499 =
          np_add (gravitational_potential M_earth 0 0 (X_grid ! 0 ! 499) (Y_grid ! 0 ! 499))
                 (gravitational_potential M_moon x_moon y_moon (X_grid ! 0 ! 499) (Y_grid ! 0 ! 499))
   \<and> (\<exists>p1 p2. gravitational_potential M_earth 0 0 (X_grid ! 0 ! 499) (Y_grid ! 0 ! 499) = Fin p1
                \<and> gravitational_potential M_moon x_moon y_moon (X_grid ! 0 ! 499) (Y_grid ! 0 ! 499) = Fin p2
                \<and> phi_total ! 0 ! 499 = Fin (p1 + p2))"
proof -
  have b: "0 < grid_pts" "499 < grid_pts" by (simp_all add: grid_pts_def)
  from phi_total_superposition b show ?thesis by blast
qed

text \<open>
  C6. The burn time is the closed form \<open>(m0 - mf) / mdot\<close>, evaluated once; with the
  scenario constants it is \<open>2050 / 13\<close>, which is 157.69 to two decimals.
\<close>

theorem T_burn_closed_form:
  "T_burn = Inr ((m0_const - mf_const) / mdot_const)
   \<and> (m0_const - mf_const) / mdot_const = 2050 / 13
   \<and> \<bar>(m0_const - mf_const) / mdot_const - 157.69\<bar> < 0.005"
proof -
  have "mdot_const \<noteq> 0" by (simp add: mdot_const_def)
  then have "T_burn = Inr ((m0_const - mf_const) / mdot_const)"
    unfolding T_burn_def py_truediv_def by (rule if_not_P)
  moreover have val: "(m0_const - mf_const) / mdot_const = 2050 / 13"
    by (simp add: m0_const_def mf_const_def mdot_const_def)
  moreover have "\<bar>(m0_const - mf_const) / mdot_const - 157.69\<bar> < 0.005"
    unfolding val by simp
  ultimately show ?thesis by (intro conjI)
qed




text \<open>
  C8. The altitude at burnout is the definite integral of the velocity
  \<open>v t = delta_v t m0 mf mdot ve g\<close> from 0 to the burn time \<open>T = (m0 - mf) / mdot\<close>, for
  the scenario constants. \<open>altitude_upto\<close> is an antiderivative of the integrand: it is
  continuous on \<open>[0, T]\<close> and at every \<open>t\<close> in \<open>[0, T)\<close> its derivative is the value that
  \<open>delta_v\<close> returns. So the integral is its increase over \<open>[0, T]\<close>, which is the closed
  form \<open>ve * (T - (mf / mdot) * ln (m0 / mf)) - g * T\<^sup>2 / 2\<close>, a finite positive number
  between \<open>1e4\<close> and \<open>1e5\<close>.
\<close>

theorem burnout_altitude_integral:
  "(\<exists>h. h_burnout = Inr h
        \<and> h = ve_const * ((m0_const - mf_const) / mdot_const
                           - mf_const / mdot_const * ln (m0_const / mf_const))
               - g_const * ((m0_const - mf_const) / mdot_const)\<^sup>2 / 2
        \<and> 10 ^ 4 < h \<and> h < 10 ^ 5
        \<and> h = altitude_upto ((m0_const - mf_const) / mdot_const) - altitude_upto 0)
   \<and> T_burn = Inr ((m0_const - mf_const) / mdot_const)
   \<and> continuous_on {0 .. (m0_const - mf_const) / mdot_const} altitude_upto
   \<and> (\<forall>t. 0 \<le> t \<and> t < (m0_const - mf_const) / mdot_const \<longrightarrow>
        (\<exists>v. delta_v t m0_const mf_const mdot_const ve_const g_const = Fin v
             \<and> (altitude_upto has_real_derivative v) (at t)))"
proof (intro conjI allI impI)
  have T: "T_burn = Inr ((m0_const - mf_const) / mdot_const)"
    by (simp add: T_burn_def py_truediv_def mdot_const_def)
  then show "T_burn = Inr ((m0_const - mf_const) / mdot_const)" .
  have "h_burnout = Inr (altitude_upto ((m0_const - mf_const) / mdot_const) - altitude_upto 0)"
    by (simp add: h_burnout_def T)
  then show "\<exists>h. h_burnout = Inr h
        \<and> h = ve_const * ((m0_const - mf_const) / mdot_const
                           - mf_const / mdot_const * ln (m0_const / mf_const))
               - g_const * ((m0_const - mf_const) / mdot_const)\<^sup>2 / 2
        \<and> 10 ^ 4 < h \<and> h < 10 ^ 5
        \<and> h = altitude_upto ((m0_const - mf_const) / mdot_const) - altitude_upto 0"
    using altitude_at_T altitude_bounds by (intro exI [of _ "altitude_upto ((m0_const - mf_const) / mdot_const) - altitude_upto 0"]) (simp only: simp_thms)
  show "continuous_on {0 .. (m0_const - mf_const) / mdot_const} altitude_upto"
    by (rule altitude_upto_continuous)
next
  fix t assume h: "0 \<le> t \<and> t < (m0_const - mf_const) / mdot_const"
  then have "mdot_const * t < m0_const" by (intro burning_before_T) simp
  from altitude_upto_deriv [OF this] delta_v_scenario [of t] h
  show "\<exists>v. delta_v t m0_const mf_const mdot_const ve_const g_const = Fin v
             \<and> (altitude_upto has_real_derivative v) (at t)"
    by blast
qed

theorem burnout_altitude_integral_witness:
  "(0::real) \<le> 100 \<and> 100 < (m0_const - mf_const) / mdot_const
   \<and> (\<exists>v. delta_v 100 m0_const mf_const mdot_const ve_const g_const = Fin v
          \<and> (altitude_upto has_real_derivative v) (at 100))
   \<and> (\<exists>h. h_burnout = Inr h \<and> 10 ^ 4 < h \<and> h < 10 ^ 5)"
proof -
  have a: "(0::real) \<le> 100" "100 < (m0_const - mf_const) / mdot_const"
    by (simp_all add: T_value)
  from burnout_altitude_integral a show ?thesis by blast
qed

text \<open>
  C9. The nested double loop returns, without an \<open>IndexError\<close>, the field whose entry
  \<open>(i, j)\<close> is computed from the grid coordinate \<open>(X[i, j], Y[i, j])\<close> and the two fixed
  sources alone: the pointwise map over the grid. Running the loop body over the cells in
  any other order (any list that covers exactly the cells of the grid) gives the same
  arrays.
\<close>

theorem force_grid_order_independent:
  "force_field_total = Inr vectorized_force_field
   \<and> (\<forall>cells. set cells = {0..<grid_pts} \<times> {0..<grid_pts} \<longrightarrow>
         run_cells cells (zeros_like X_grid, zeros_like Y_grid) = force_field_total)
   \<and> (\<forall>i<grid_pts. \<forall>j<grid_pts.
         fst vectorized_force_field ! i ! j =
           np_add (fst (gravitational_force M_earth m_cmd 0 0 (X_grid ! i ! j) (Y_grid ! i ! j)))
                  (fst (gravitational_force M_moon m_cmd x_moon y_moon (X_grid ! i ! j) (Y_grid ! i ! j)))
       \<and> snd vectorized_force_field ! i ! j =
           np_add (snd (gravitational_force M_earth m_cmd 0 0 (X_grid ! i ! j) (Y_grid ! i ! j)))
                  (snd (gravitational_force M_moon m_cmd x_moon y_moon (X_grid ! i ! j) (Y_grid ! i ! j))))"
proof (intro conjI allI impI)
  show "force_field_total = Inr vectorized_force_field" by (rule force_field_total_eq)
next
  fix cells :: "(nat \<times> nat) list"
  assume "set cells = {0..<grid_pts} \<times> {0..<grid_pts}"
  then show "run_cells cells (zeros_like X_grid, zeros_like Y_grid) = force_field_total"
    by (simp only: run_cells_full force_field_total_eq)
next
  fix i j assume "i < grid_pts" "j < grid_pts"
  then show "fst vectorized_force_field ! i ! j =
           np_add (fst (gravitational_force M_earth m_cmd 0 0 (X_grid ! i ! j) (Y_grid ! i ! j)))
                  (fst (gravitational_force M_moon m_cmd x_moon y_moon (X_grid ! i ! j) (Y_grid ! i ! j)))"
    by (simp add: fst_vectorized_nth total_force_at_def)
next
  fix i j assume "i < grid_pts" "j < grid_pts"
  then show "snd vectorized_force_field ! i ! j =
           np_add (snd (gravitational_force M_earth m_cmd 0 0 (X_grid ! i ! j) (Y_grid ! i ! j)))
                  (snd (gravitational_force M_moon m_cmd x_moon y_moon (X_grid ! i ! j) (Y_grid ! i ! j)))"
    by (simp add: fst_vectorized_nth total_force_at_def)
qed

theorem force_grid_order_independent_witness:
  "set (rev (List.product [0..<grid_pts] [0..<grid_pts])) = {0..<grid_pts} \<times> {0..<grid_pts}
   \<and> run_cells (rev (List.product [0..<grid_pts] [0..<grid_pts]))
        (zeros_like X_grid, zeros_like Y_grid) = force_field_total
   \<and> 3 < grid_pts \<and> 7 < grid_pts
   \<and> fst vectorized_force_field ! 3 ! 7 =
        np_add (fst (gravitational_force M_earth m_cmd 0 0 (X_grid ! 3 ! 7) (Y_grid ! 3 ! 7)))
               (fst (gravitational_force M_moon m_cmd x_moon y_moon (X_grid ! 3 ! 7) (Y_grid ! 3 ! 7)))
   \<and> snd vectorized_force_field ! 3 ! 7 =
        np_add (snd (gravitational_force M_earth m_cmd 0 0 (X_grid ! 3 ! 7) (Y_grid ! 3 ! 7)))
               (snd (gravitational_force M_moon m_cmd x_moon y_moon (X_grid ! 3 ! 7) (Y_grid ! 3 ! 7)))"
proof -
  have a: "set (rev (List.product [0..<grid_pts] [0..<grid_pts])) = {0..<grid_pts} \<times> {0..<grid_pts}"
    by simp
  have b: "3 < grid_pts" "7 < grid_pts" by (simp_all add: grid_pts_def)
  from force_grid_order_independent a b show ?thesis by blast
qed

text \<open>
  C10, as the code has it. For masses with \<open>M1\<close> and \<open>G * M1 * m2\<close> within the range of
  doubles, the force at the source's own position is exactly \<open>(0, 0)\<close>: the floor is
  applied to \<open>r2\<close>, the displacement stays 0.
\<close>

theorem gravitational_force_at_source:
  assumes "in_range M1" "in_range (G * M1 * m2)"
  shows "gravitational_force M1 m2 x1 y1 x1 y1 = (Fin 0, Fin 0)"
proof -
  have d: "in_range ((x1 - x1)\<^sup>2 + (y1 - y1)\<^sup>2)" by (rule in_range_small) simp
  show ?thesis
    unfolding gravitational_force_closed [OF d in_range_G_mult [OF assms(1)] assms(2)]
    by simp
qed

theorem gravitational_force_at_source_witness:
  "in_range M_earth \<and> in_range (G * M_earth * m_cmd)
   \<and> gravitational_force M_earth m_cmd 0 0 0 0 = (Fin 0, Fin 0)"
proof -
  have m: "in_range M_earth" by (rule in_range_small) (simp add: M_earth_def)
  from gravitational_force_at_source [OF m masses_in_range(3), of 0 0] m masses_in_range(3)
  show ?thesis by blast
qed

text \<open>
  C10 as stated fails for masses whose product overflows: with \<open>M1 = m2 = 1e200\<close> the
  coefficient \<open>- G * M1 * m2\<close> is minus infinity, it stays so after the division by the
  floored \<open>r2\<close>, and infinity times the zero displacement is \<open>NaN\<close> in both components.
\<close>

theorem gravitational_force_at_source_counterexample:
  "gravitational_force (10 ^ 200) (10 ^ 200) 0 0 0 0 = (NaN, NaN)"
proof -
  have a: "np_multiply (np_negative (Fin G)) (Fin (10 ^ 200)) = Fin (- G * 10 ^ 200)"
    by (rule np_multiply_G, rule in_range_small) (simp add: G_def)
  have "- G * 10 ^ 200 * 10 ^ 200 \<le> - overflow_threshold"
    by (simp add: G_def overflow_threshold_def)
  then have b: "np_multiply (Fin (- G * 10 ^ 200)) (Fin (10 ^ 200)) = NInf"
    using overflow_threshold_pos by (simp add: fl_def)
  have dx: "np_subtract (Fin 0) (Fin 0) = Fin 0" by (simp add: np_subtract_Fin fl_zero)
  have sq: "np_square (Fin 0) = Fin 0" by (simp add: np_square_def fl_zero)
  have r2: "np_maximum (np_add (Fin 0) (Fin 0)) (Fin 1000000) = Fin 1000000"
    by (simp add: fl_zero)
  show ?thesis
    unfolding gravitational_force_def Let_def a b dx sq r2
    by (simp add: sqrt_million)
qed

end
